theory Spec2Isabelle
  imports Main "HOL-Library.Word"
begin

section \<open>JavaScript strings\<close>

text \<open>
  A JavaScript string is a sequence of UTF-16 code units. \<^verbatim>\<open>Array.from(value)\<close> and
  \<^verbatim>\<open>for (const ch of value)\<close> both run the string iterator, which yields one string per
  code point: a lead surrogate directly followed by a trail surrogate is yielded as one
  two-unit string, and every other code unit (a lone surrogate included) as a one-unit
  string.
\<close>

type_synonym code_unit = "16 word"
type_synonym js_string = "code_unit list"

definition isLeadSurrogate :: "code_unit \<Rightarrow> bool" where
  "isLeadSurrogate u \<longleftrightarrow> 0xD800 \<le> u \<and> u \<le> 0xDBFF"

definition isTrailSurrogate :: "code_unit \<Rightarrow> bool" where
  "isTrailSurrogate u \<longleftrightarrow> 0xDC00 \<le> u \<and> u \<le> 0xDFFF"

fun Array_from :: "js_string \<Rightarrow> js_string list" where
  "Array_from [] = []"
| "Array_from [u] = [[u]]"
| "Array_from (u # v # rest) =
     (if isLeadSurrogate u \<and> isTrailSurrogate v then [u, v] # Array_from rest
      else [u] # Array_from (v # rest))"

text \<open>
  \<^verbatim>\<open>ch.codePointAt(0)\<close>: \<open>None\<close> stands for \<^verbatim>\<open>undefined\<close> (the empty string).
\<close>

fun codePointAt0 :: "js_string \<Rightarrow> nat option" where
  "codePointAt0 [] = None"
| "codePointAt0 [u] = Some (unat u)"
| "codePointAt0 (u # v # rest) =
     (if isLeadSurrogate u \<and> isTrailSurrogate v
      then Some ((unat u - 0xD800) * 0x400 + (unat v - 0xDC00) + 0x10000)
      else Some (unat u))"

text \<open>
  \<^verbatim>\<open>toLowerCase\<close> and \<^verbatim>\<open>toUpperCase\<close> are built-ins of the language. They are modelled on
  the Basic Latin block and on the Cyrillic block U+0400 to U+045F, where the case
  mapping is one code unit to one code unit; every other code unit is returned as it
  is. The translator uses the lowercase form of a character only as a key into its
  letter map (whose keys are U+0430 to U+044F and U+0451) and compares it with the
  character only after that lookup succeeded, and it uppercases only values of the
  letter map (all of them Basic Latin). In Unicode the only code points whose lowercase
  form is one of those keys are the keys themselves and U+0410 to U+042F, U+0401, so the
  blocks left out do not reach the translator's result.
\<close>

definition lower_unit :: "code_unit \<Rightarrow> code_unit" where
  "lower_unit u =
     (if 0x41 \<le> u \<and> u \<le> 0x5A then u + 0x20
      else if 0x400 \<le> u \<and> u \<le> 0x40F then u + 0x50
      else if 0x410 \<le> u \<and> u \<le> 0x42F then u + 0x20
      else u)"

definition upper_unit :: "code_unit \<Rightarrow> code_unit" where
  "upper_unit u =
     (if 0x61 \<le> u \<and> u \<le> 0x7A then u - 0x20
      else if 0x430 \<le> u \<and> u \<le> 0x44F then u - 0x20
      else if 0x450 \<le> u \<and> u \<le> 0x45F then u - 0x50
      else u)"

definition toLowerCase :: "js_string \<Rightarrow> js_string" where
  "toLowerCase s = map lower_unit s"

definition toUpperCase :: "js_string \<Rightarrow> js_string" where
  "toUpperCase s = map upper_unit s"

text \<open>
  Reading a property of an object literal gives \<^verbatim>\<open>undefined\<close> for a missing key; the
  source tests the result for truthiness, and a string is truthy when it is not empty.
  \<open>truthy_prop m k\<close> is the value of \<^verbatim>\<open>m[k]\<close> when it is truthy.
\<close>

definition truthy_prop :: "(js_string \<times> js_string) list \<Rightarrow> js_string \<Rightarrow> js_string option" where
  "truthy_prop m k =
     (case map_of m k of
        None \<Rightarrow> None
      | Some v \<Rightarrow> if v = [] then None else Some v)"

section \<open>The layout translator\<close>

text \<open>
  The two tables of \<^verbatim>\<open>translateRuToEnWithPunctuation\<close>, in the order of the source.
  Each row is (key, value); the keys of \<open>letterMap\<close> are the Cyrillic small letters
  io, then the three letter rows of the keyboard.
\<close>

definition letterMap :: "(js_string \<times> js_string) list" where
  "letterMap =
    [([0x451], [0x60]),
     ([0x439], [0x71]), ([0x446], [0x77]), ([0x443], [0x65]), ([0x43A], [0x72]),
     ([0x435], [0x74]), ([0x43D], [0x79]), ([0x433], [0x75]), ([0x448], [0x69]),
     ([0x449], [0x6F]), ([0x437], [0x70]),
     ([0x445], [0x5B]), ([0x44A], [0x5D]),
     ([0x444], [0x61]), ([0x44B], [0x73]), ([0x432], [0x64]), ([0x430], [0x66]),
     ([0x43F], [0x67]), ([0x440], [0x68]), ([0x43E], [0x6A]), ([0x43B], [0x6B]),
     ([0x434], [0x6C]), ([0x436], [0x3B]), ([0x44D], [0x27]),
     ([0x44F], [0x7A]), ([0x447], [0x78]), ([0x441], [0x63]), ([0x43C], [0x76]),
     ([0x438], [0x62]), ([0x442], [0x6E]), ([0x44C], [0x6D]), ([0x431], [0x2C]),
     ([0x44E], [0x2E])]"

definition punctuationMap :: "(js_string \<times> js_string) list" where
  "punctuationMap =
    [([0x22], [0x40]), ([0x2116], [0x23]), ([0x3B], [0x24]), ([0x3A], [0x5E]),
     ([0x3F], [0x26]), ([0x401], [0x7E]), ([0x2F], [0x7C]), ([0x2E], [0x2F]),
     ([0x2C], [0x3F])]"

text \<open>The function passed to \<^verbatim>\<open>.map\<close>: the translation of one character.\<close>

definition translate_char :: "js_string \<Rightarrow> js_string" where
  "translate_char ch =
     (let lower = toLowerCase ch in
      case truthy_prop letterMap lower of
        Some translated \<Rightarrow> if ch = lower then translated else toUpperCase translated
      | None \<Rightarrow>
          (case truthy_prop punctuationMap ch of
             Some p \<Rightarrow> p
           | None \<Rightarrow> ch))"

definition translateRuToEnWithPunctuation :: "js_string \<Rightarrow> js_string" where
  "translateRuToEnWithPunctuation v = concat (map translate_char (Array_from v))"

section \<open>The input validator\<close>

definition lang_ru :: js_string where
  "lang_ru = [0x72, 0x75]"

definition lang_en :: js_string where
  "lang_en = [0x65, 0x6E]"

text \<open>The body of the loop of \<^verbatim>\<open>isValidForLanguage\<close> over the characters still to visit.\<close>

fun isValid_loop :: "bool \<Rightarrow> js_string list \<Rightarrow> bool" where
  "isValid_loop isRussian [] = True"
| "isValid_loop isRussian (ch # rest) =
     (let code = (case codePointAt0 ch of None \<Rightarrow> 0 | Some c \<Rightarrow> c) in
      if isRussian then
        (if (code \<ge> 0x0410 \<and> code \<le> 0x042f) \<or>
            (code \<ge> 0x0430 \<and> code \<le> 0x044f) \<or>
            code = 0x0401 \<or>
            code = 0x0451 \<or>
            (code \<ge> 0x20 \<and> code \<le> 0x7e \<and> \<not> (code \<ge> 0x41 \<and> code \<le> 0x5a)
               \<and> \<not> (code \<ge> 0x61 \<and> code \<le> 0x7a))
         then isValid_loop isRussian rest
         else False)
      else if code \<le> 0x7f then isValid_loop isRussian rest
      else False)"

definition isValidForLanguage :: "js_string \<Rightarrow> js_string \<Rightarrow> bool" where
  "isValidForLanguage v lang =
     (let isRussian = (lang = lang_ru) in isValid_loop isRussian (Array_from v))"

section \<open>The dialog\<close>

text \<open>
  The state of the component is its six \<^verbatim>\<open>useState\<close> cells. The validity status is the
  empty string (\<open>StatusNone\<close>) or \<^verbatim>\<open>'error'\<close> (\<open>StatusError\<close>). A response of the
  paste operation carries a status code and a message.
\<close>

datatype status = StatusNone | StatusError

record dialog =
  isModalOpen :: bool
  inputValue :: js_string
  language :: js_string
  status :: status
  isLoading :: bool
  errMsg :: js_string

record response =
  code :: int
  msg :: js_string

text \<open>
  \<^verbatim>\<open>submit\<close> either returns at once, or sets the loading flag and calls \<^verbatim>\<open>paste\<close>. The
  model returns the state after the handler and the argument of the call to \<^verbatim>\<open>paste\<close>,
  \<open>None\<close> when no call is made.
\<close>

definition submit :: "dialog \<Rightarrow> dialog \<times> js_string option" where
  "submit st =
     (if isLoading st \<or> inputValue st = [] then (st, None)
      else
        (let st1 = st\<lparr>isLoading := True\<rparr>;
             textToSend =
               (if language st = lang_ru then translateRuToEnWithPunctuation (inputValue st)
                else inputValue st)
         in (st1, Some textToSend)))"

text \<open>
  The promise of \<^verbatim>\<open>paste\<close> is fulfilled with a response or rejected. \<open>on_then\<close> is the
  callback given to \<^verbatim>\<open>.then\<close>, \<open>on_finally\<close> the one given to \<^verbatim>\<open>.finally\<close>; both write
  constants and fields of the response into the state of the dialog as it is when they
  run. \<open>settle\<close> runs the chain for one outcome.
\<close>

datatype outcome = Fulfilled response | Rejected

definition on_then :: "response \<Rightarrow> dialog \<Rightarrow> dialog" where
  "on_then rsp st =
     (if code rsp \<noteq> 0 then st\<lparr>errMsg := msg rsp\<rparr>
      else st\<lparr>inputValue := [], status := StatusNone, errMsg := [], isModalOpen := False\<rparr>)"

definition on_finally :: "dialog \<Rightarrow> dialog" where
  "on_finally st = st\<lparr>isLoading := False\<rparr>"

fun settle :: "outcome \<Rightarrow> dialog \<Rightarrow> dialog" where
  "settle (Fulfilled rsp) st = on_finally (on_then rsp st)"
| "settle Rejected st = on_finally st"

section \<open>Characters of a string, for the proofs\<close>

text \<open>
  \<open>is_char c\<close>: \<open>c\<close> is one element of the string iterator, a single code unit or a
  surrogate pair. \<open>joins c d\<close>: the last unit of \<open>c\<close> and the first of \<open>d\<close> would be read
  as one pair. \<open>well_split cs\<close>: the iterator, run on the concatenation of \<open>cs\<close>, yields
  \<open>cs\<close> again.
\<close>

fun is_char :: "js_string \<Rightarrow> bool" where
  "is_char [u] = True"
| "is_char [u, v] = (isLeadSurrogate u \<and> isTrailSurrogate v)"
| "is_char _ = False"

fun joins :: "js_string \<Rightarrow> js_string \<Rightarrow> bool" where
  "joins [u] (v # rest) = (isLeadSurrogate u \<and> isTrailSurrogate v)"
| "joins _ _ = False"

fun well_split :: "js_string list \<Rightarrow> bool" where
  "well_split [] = True"
| "well_split [c] = is_char c"
| "well_split (c # d # r) = (is_char c \<and> \<not> joins c d \<and> well_split (d # r))"

section \<open>The translator as the specification words it\<close>

text \<open>
  The specification's account of one character: lowercase it; if the lowercase form is a
  key of the letter map, output the mapped character, ASCII-uppercased when the character
  differs from its lowercase form; otherwise, if the character is a key of the
  punctuation map, output the mapped character; otherwise output the character.
  \<open>asciiUpper\<close> changes only the letters a to z.
\<close>

definition asciiUpper_unit :: "code_unit \<Rightarrow> code_unit" where
  "asciiUpper_unit u = (if 0x61 \<le> u \<and> u \<le> 0x7A then u - 0x20 else u)"

definition asciiUpper :: "js_string \<Rightarrow> js_string" where
  "asciiUpper s = map asciiUpper_unit s"

definition translate_char_spec :: "js_string \<Rightarrow> js_string" where
  "translate_char_spec ch =
     (let lower = toLowerCase ch in
      case map_of letterMap lower of
        Some mapped \<Rightarrow> if ch \<noteq> lower then asciiUpper mapped else mapped
      | None \<Rightarrow>
          (case map_of punctuationMap ch of
             Some p \<Rightarrow> p
           | None \<Rightarrow> ch))"

section \<open>Example data\<close>

text \<open>The state the component starts in (the arguments of its \<^verbatim>\<open>useState\<close> calls).\<close>

definition initial :: dialog where
  "initial =
     \<lparr>isModalOpen = False, inputValue = [], language = lang_en, status = StatusNone,
      isLoading = False, errMsg = []\<rparr>"

text \<open>A Basic Latin string literal as code units.\<close>

definition ascii :: "string \<Rightarrow> js_string" where
  "ascii s = map of_char s"

text \<open>The Cyrillic word of the examples: pe, er, i, ve, ie, te (in small letters).\<close>

definition privet :: js_string where
  "privet = [0x43F, 0x440, 0x438, 0x432, 0x435, 0x442]"

section \<open>The string iterator and concatenation\<close>

lemma is_char_cases:
  "is_char c \<longleftrightarrow> (\<exists>u. c = [u]) \<or> (\<exists>u v. c = [u, v] \<and> isLeadSurrogate u \<and> isTrailSurrogate v)"
  by (induction c rule: is_char.induct) auto

lemma well_split_Cons:
  "well_split (c # cs) \<longleftrightarrow>
     is_char c \<and> (case cs of [] \<Rightarrow> True | d # _ \<Rightarrow> \<not> joins c d) \<and> well_split cs"
  by (cases cs) auto

lemma Array_from_Nil: "Array_from s = [] \<longleftrightarrow> s = []"
  by (induction s rule: Array_from.induct) auto

lemma Array_from_head:
  "Array_from (v # rest) = d # r \<Longrightarrow> \<exists>d'. d = v # d'"
  by (cases rest) (auto split: if_splits)

lemma well_split_Array_from: "well_split (Array_from s)"
proof (induction s rule: Array_from.induct)
  case 1
  show ?case by simp
next
  case (2 u)
  show ?case by simp
next
  case (3 u v rest)
  show ?case
  proof (cases "isLeadSurrogate u \<and> isTrailSurrogate v")
    case True
    with 3 show ?thesis
      by (simp add: well_split_Cons split: list.split)
  next
    case False
    with 3 have ws: "well_split (Array_from (v # rest))" by simp
    obtain d r where dr: "Array_from (v # rest) = d # r"
      by (cases "Array_from (v # rest)") (simp_all add: Array_from_Nil)
    then obtain d' where d: "d = v # d'"
      using Array_from_head by blast
    from False have eq: "Array_from (u # v # rest) = [u] # Array_from (v # rest)"
      by simp
    from False d have "\<not> joins [u] d" by simp
    with ws dr show ?thesis
      unfolding eq by (simp add: well_split_Cons)
  qed
qed

lemma Array_from_concat:
  "well_split cs \<Longrightarrow> Array_from (concat cs) = cs"
proof (induction cs rule: well_split.induct)
  case 1
  show ?case by simp
next
  case (2 c)
  then show ?case by (auto simp: is_char_cases)
next
  case (3 c d r)
  then have ih: "Array_from (concat (d # r)) = d # r" by simp
  from 3 have "is_char d" by (simp add: well_split_Cons)
  then obtain v d' where d: "d = v # d'" by (auto simp: is_char_cases)
  from 3 have c: "is_char c" and nj: "\<not> joins c d" by simp_all
  from c consider (one) u where "c = [u]"
    | (two) u w where "c = [u, w]" "isLeadSurrogate u" "isTrailSurrogate w"
    by (auto simp: is_char_cases)
  then show ?case
  proof cases
    case one
    with nj d have "\<not> (isLeadSurrogate u \<and> isTrailSurrogate v)" by simp
    with one d ih show ?thesis by simp
  next
    case two
    with ih show ?thesis by simp
  qed
qed

lemma concat_Array_from: "concat (Array_from s) = s"
  by (induction s rule: Array_from.induct) auto

lemma Array_from_nonempty: "ch \<in> set (Array_from s) \<Longrightarrow> is_char ch"
  by (induction s rule: Array_from.induct) (auto split: if_splits)

lemma well_split_map:
  assumes f: "\<And>c. f c = c \<or> (\<exists>a. f c = [a] \<and> \<not> isLeadSurrogate a \<and> \<not> isTrailSurrogate a)"
  shows "well_split cs \<Longrightarrow> well_split (map f cs)"
proof (induction cs rule: well_split.induct)
  case 1
  show ?case by simp
next
  case (2 c)
  with f [of c] show ?case by auto
next
  case (3 c d r)
  then have ih: "well_split (map f (d # r))" by simp
  from 3 have c: "is_char c" and nj: "\<not> joins c d" and dch: "is_char d" by (simp_all add: well_split_Cons)
  from f [of c] c have fc: "is_char (f c)" by auto
  have "\<not> joins (f c) (f d)"
  proof (cases "f c = c")
    case False
    with f [of c] obtain a where "f c = [a]" "\<not> isLeadSurrogate a" by auto
    then show ?thesis by (cases "f d") auto
  next
    case True
    show ?thesis
    proof (cases "f d = d")
      case True
      with \<open>f c = c\<close> nj show ?thesis by simp
    next
      case False
      with f [of d] obtain a where "f d = [a]" "\<not> isTrailSurrogate a" by auto
      with \<open>f c = c\<close> c show ?thesis by (auto simp: is_char_cases)
    qed
  qed
  with fc ih show ?case by simp
qed

lemma ascii_not_surrogate:
  "a < 0x80 \<Longrightarrow> \<not> isLeadSurrogate a \<and> \<not> isTrailSurrogate (a :: code_unit)"
  by (auto simp: isLeadSurrogate_def isTrailSurrogate_def word_le_nat_alt word_less_nat_alt)

lemma letterMap_values:
  "list_all (\<lambda>(k, v). \<exists>a. v = [a] \<and> a < 0x80 \<and> upper_unit a < 0x80) letterMap"
  by (simp add: letterMap_def upper_unit_def)

lemma punctuationMap_values:
  "list_all (\<lambda>(k, v). \<exists>a. v = [a] \<and> a < 0x80) punctuationMap"
  by (simp add: punctuationMap_def)

lemma truthy_prop_mem: "truthy_prop m k = Some v \<Longrightarrow> (k, v) \<in> set m"
  by (auto simp: truthy_prop_def dest: map_of_SomeD split: option.splits if_splits)

lemma translate_char_shape:
  "translate_char c = c \<or> (\<exists>a. translate_char c = [a] \<and> a < 0x80)"
proof (cases "truthy_prop letterMap (toLowerCase c)")
  case (Some t)
  then have "(toLowerCase c, t) \<in> set letterMap" by (rule truthy_prop_mem)
  with letterMap_values obtain a where "t = [a]" "a < 0x80" "upper_unit a < 0x80"
    by (auto simp: list_all_iff)
  with Some show ?thesis by (simp add: translate_char_def toUpperCase_def)
next
  case None
  show ?thesis
  proof (cases "truthy_prop punctuationMap c")
    case (Some p)
    then have "(c, p) \<in> set punctuationMap" by (rule truthy_prop_mem)
    with punctuationMap_values obtain a where "p = [a]" "a < 0x80"
      by (auto simp: list_all_iff)
    with Some None show ?thesis by (simp add: translate_char_def)
  next
    case n: None
    with None show ?thesis by (simp add: translate_char_def)
  qed
qed

lemma Array_from_translate:
  "Array_from (translateRuToEnWithPunctuation s) = map translate_char (Array_from s)"
  unfolding translateRuToEnWithPunctuation_def
proof (rule Array_from_concat)
  show "well_split (map translate_char (Array_from s))"
  proof (rule well_split_map)
    fix c
    show "translate_char c = c \<or>
       (\<exists>a. translate_char c = [a] \<and> \<not> isLeadSurrogate a \<and> \<not> isTrailSurrogate a)"
      using translate_char_shape [of c] ascii_not_surrogate by blast
  next
    show "well_split (Array_from s)" by (rule well_split_Array_from)
  qed
qed

section \<open>The validator\<close>

lemma is_char_codePoint: "is_char ch \<Longrightarrow> \<exists>c. codePointAt0 ch = Some c"
  by (induction ch rule: is_char.induct) auto

lemma isValid_loop_ru:
  "isValid_loop True cs \<longleftrightarrow>
     (\<forall>ch \<in> set cs. \<exists>c. (case codePointAt0 ch of None \<Rightarrow> 0 | Some c \<Rightarrow> c) = c \<and>
        ((0x0410 \<le> c \<and> c \<le> 0x042F) \<or> (0x0430 \<le> c \<and> c \<le> 0x044F) \<or> c = 0x0401 \<or> c = 0x0451 \<or>
         (0x20 \<le> c \<and> c \<le> 0x7E \<and> \<not> (0x41 \<le> c \<and> c \<le> 0x5A) \<and> \<not> (0x61 \<le> c \<and> c \<le> 0x7A))))"
  by (induction cs) (simp_all add: Let_def)

lemma isValid_loop_other:
  "isValid_loop False cs \<longleftrightarrow>
     (\<forall>ch \<in> set cs. (case codePointAt0 ch of None \<Rightarrow> 0 | Some c \<Rightarrow> c) \<le> 0x7F)"
  by (induction cs) (simp_all add: Let_def)

text \<open>
  C1. For every string, the validator answers true for language \<open>ru\<close> exactly when every
  character of the string has a code point in the Cyrillic capital range 0x0410 to 0x042F,
  in the Cyrillic small range 0x0430 to 0x044F, equal to 0x0401 or 0x0451, or in the
  printable ASCII range 0x20 to 0x7E without being a Latin letter (0x41 to 0x5A, 0x61 to
  0x7A). In particular the Cyrillic word \<open>privet\<close> is valid and \<open>hello\<close> is not.
\<close>

theorem isValidForLanguage_ru:
  "(isValidForLanguage s lang_ru \<longleftrightarrow>
     (\<forall>ch \<in> set (Array_from s). \<exists>c. codePointAt0 ch = Some c \<and>
        ((0x0410 \<le> c \<and> c \<le> 0x042F) \<or> (0x0430 \<le> c \<and> c \<le> 0x044F) \<or> c = 0x0401 \<or> c = 0x0451 \<or>
         (0x20 \<le> c \<and> c \<le> 0x7E \<and> \<not> (0x41 \<le> c \<and> c \<le> 0x5A \<or> 0x61 \<le> c \<and> c \<le> 0x7A))))) \<and>
   isValidForLanguage privet lang_ru \<and>
   \<not> isValidForLanguage (ascii ''hello'') lang_ru"
proof (intro conjI)
  have "\<And>ch. ch \<in> set (Array_from s) \<Longrightarrow> \<exists>c. codePointAt0 ch = Some c"
    using Array_from_nonempty is_char_codePoint by blast
  then show "isValidForLanguage s lang_ru \<longleftrightarrow>
     (\<forall>ch \<in> set (Array_from s). \<exists>c. codePointAt0 ch = Some c \<and>
        ((0x0410 \<le> c \<and> c \<le> 0x042F) \<or> (0x0430 \<le> c \<and> c \<le> 0x044F) \<or> c = 0x0401 \<or> c = 0x0451 \<or>
         (0x20 \<le> c \<and> c \<le> 0x7E \<and> \<not> (0x41 \<le> c \<and> c \<le> 0x5A \<or> 0x61 \<le> c \<and> c \<le> 0x7A))))"
    unfolding isValidForLanguage_def Let_def
    by (simp add: isValid_loop_ru) fastforce
next
  show "isValidForLanguage privet lang_ru"
    by (simp add: isValidForLanguage_def privet_def isLeadSurrogate_def)
next
  show "\<not> isValidForLanguage (ascii ''hello'') lang_ru"
    by (simp add: isValidForLanguage_def ascii_def isLeadSurrogate_def)
qed

theorem isValidForLanguage_ru_witness:
  "length (Array_from [0x416, 0x2C, 0x20, 0x451, 0x37]) = 5 \<and>
   isValidForLanguage [0x416, 0x2C, 0x20, 0x451, 0x37] lang_ru \<and>
   \<not> isValidForLanguage [0x416, 0x7A] lang_ru \<and>
   \<not> isValidForLanguage [0x416, 0x7F] lang_ru \<and>
   \<not> isValidForLanguage [0x416, 0xD83D, 0xDE00] lang_ru"
  using isValidForLanguage_ru [of "[0x416, 0x2C, 0x20, 0x451, 0x37]"]
    isValidForLanguage_ru [of "[0x416, 0x7A]"]
    isValidForLanguage_ru [of "[0x416, 0x7F]"]
    isValidForLanguage_ru [of "[0x416, 0xD83D, 0xDE00]"]
  by (simp add: isLeadSurrogate_def isTrailSurrogate_def)

text \<open>
  C2. For every string and every language code other than \<open>ru\<close>, the validator answers
  true exactly when every character of the string has a code point of at most 0x7F; and
  for every language code the empty string is valid.
\<close>

theorem isValidForLanguage_other:
  "(lang \<noteq> lang_ru \<longrightarrow>
      (isValidForLanguage s lang \<longleftrightarrow>
         (\<forall>ch \<in> set (Array_from s). \<exists>c. codePointAt0 ch = Some c \<and> c \<le> 0x7F))) \<and>
   isValidForLanguage [] lang"
proof (intro conjI impI)
  assume "lang \<noteq> lang_ru"
  moreover have "\<And>ch. ch \<in> set (Array_from s) \<Longrightarrow> \<exists>c. codePointAt0 ch = Some c"
    using Array_from_nonempty is_char_codePoint by blast
  ultimately show "isValidForLanguage s lang \<longleftrightarrow>
         (\<forall>ch \<in> set (Array_from s). \<exists>c. codePointAt0 ch = Some c \<and> c \<le> 0x7F)"
    unfolding isValidForLanguage_def Let_def
    by (simp add: isValid_loop_other) fastforce
next
  show "isValidForLanguage [] lang"
    by (simp add: isValidForLanguage_def)
qed

theorem isValidForLanguage_other_witness:
  "lang_en \<noteq> lang_ru \<and>
   isValidForLanguage (ascii ''hello world'') lang_en \<and>
   \<not> isValidForLanguage privet lang_en \<and>
   isValidForLanguage [] lang_ru"
  using isValidForLanguage_other [of lang_en "ascii ''hello world''"]
    isValidForLanguage_other [of lang_en privet]
    isValidForLanguage_other [of lang_ru]
  by (simp add: lang_en_def lang_ru_def ascii_def privet_def isLeadSurrogate_def isTrailSurrogate_def)

section \<open>The translator\<close>

lemma letterMap_refines:
  "list_all (\<lambda>(k, v). v \<noteq> [] \<and> toUpperCase v = asciiUpper v) letterMap"
  by (simp add: letterMap_def toUpperCase_def asciiUpper_def upper_unit_def asciiUpper_unit_def)

lemma punctuationMap_nonempty:
  "list_all (\<lambda>(k, v). v \<noteq> []) punctuationMap"
  by (simp add: punctuationMap_def)

lemma truthy_prop_letterMap: "truthy_prop letterMap k = map_of letterMap k"
proof (cases "map_of letterMap k")
  case None
  then show ?thesis by (simp add: truthy_prop_def)
next
  case (Some v)
  then have "(k, v) \<in> set letterMap" by (rule map_of_SomeD)
  with letterMap_refines have "v \<noteq> []" by (auto simp: list_all_iff)
  with Some show ?thesis by (simp add: truthy_prop_def)
qed

lemma truthy_prop_punctuationMap: "truthy_prop punctuationMap k = map_of punctuationMap k"
proof (cases "map_of punctuationMap k")
  case None
  then show ?thesis by (simp add: truthy_prop_def)
next
  case (Some v)
  then have "(k, v) \<in> set punctuationMap" by (rule map_of_SomeD)
  with punctuationMap_nonempty have "v \<noteq> []" by (auto simp: list_all_iff)
  with Some show ?thesis by (simp add: truthy_prop_def)
qed

lemma translate_char_refines: "translate_char ch = translate_char_spec ch"
proof (cases "map_of letterMap (toLowerCase ch)")
  case None
  then show ?thesis
    by (simp add: translate_char_def translate_char_spec_def truthy_prop_letterMap
        truthy_prop_punctuationMap)
next
  case (Some v)
  then have "(toLowerCase ch, v) \<in> set letterMap" by (rule map_of_SomeD)
  with letterMap_refines have "toUpperCase v = asciiUpper v" by (auto simp: list_all_iff)
  with Some show ?thesis
    by (simp add: translate_char_def translate_char_spec_def truthy_prop_letterMap)
qed

lemmas translate_eval =
  translateRuToEnWithPunctuation_def translate_char_def truthy_prop_def letterMap_def
  punctuationMap_def toLowerCase_def toUpperCase_def lower_unit_def upper_unit_def
  isLeadSurrogate_def isTrailSurrogate_def

lemma translate_upper_letters:
  "list_all (\<lambda>(c, t). translateRuToEnWithPunctuation (toUpperCase c) = asciiUpper t) letterMap"
  by (simp add: translate_eval asciiUpper_def asciiUpper_unit_def)

text \<open>
  C3. The translator works character by character: the result is the concatenation of the
  translations of the characters of its argument, its characters are those translations in
  order, and the translation of one character is what the specification words
  (\<open>translate_char_spec\<close>). So the capital of every key of the letter map translates to
  the ASCII uppercase of the key's image, and the Cyrillic phrase "Privet, mir!" (capital
  pe, er, i, ve, ie, te, comma, space, em, i, er, exclamation mark) translates to
  "Ghbdtn? vbh!".
\<close>

theorem translate_per_character:
  "Array_from (translateRuToEnWithPunctuation s) = map translate_char_spec (Array_from s) \<and>
   translateRuToEnWithPunctuation s = concat (map translate_char_spec (Array_from s)) \<and>
   (\<forall>(c, t) \<in> set letterMap. translateRuToEnWithPunctuation (toUpperCase c) = asciiUpper t) \<and>
   translateRuToEnWithPunctuation
     ([0x41F, 0x440, 0x438, 0x432, 0x435, 0x442] @ ascii '', '' @ [0x43C, 0x438, 0x440] @ ascii ''!'')
     = ascii ''Ghbdtn? vbh!''"
proof (intro conjI)
  have eq: "translate_char = translate_char_spec"
    by (rule ext) (rule translate_char_refines)
  show "Array_from (translateRuToEnWithPunctuation s) = map translate_char_spec (Array_from s)"
    using Array_from_translate [of s] by (simp add: eq)
  show "translateRuToEnWithPunctuation s = concat (map translate_char_spec (Array_from s))"
    by (simp add: translateRuToEnWithPunctuation_def eq)
  show "\<forall>(c, t) \<in> set letterMap. translateRuToEnWithPunctuation (toUpperCase c) = asciiUpper t"
    using translate_upper_letters by (simp add: list_all_iff)
  show "translateRuToEnWithPunctuation
     ([0x41F, 0x440, 0x438, 0x432, 0x435, 0x442] @ ascii '', '' @ [0x43C, 0x438, 0x440] @ ascii ''!'')
     = ascii ''Ghbdtn? vbh!''"
    by (simp add: translate_eval ascii_def)
qed

theorem translate_per_character_witness:
  "([0x436], [0x3B]) \<in> set letterMap \<and>
   translateRuToEnWithPunctuation (toUpperCase [0x436]) = asciiUpper [0x3B] \<and>
   ([0x43F], [0x67]) \<in> set letterMap \<and>
   translateRuToEnWithPunctuation (toUpperCase [0x43F]) = ascii ''G''"
proof -
  have a: "([0x436], [0x3B]) \<in> set letterMap" and b: "([0x43F], [0x67]) \<in> set letterMap"
    by (simp_all add: letterMap_def)
  from translate_per_character [of "[]"]
  have all: "\<forall>(c, t) \<in> set letterMap. translateRuToEnWithPunctuation (toUpperCase c) = asciiUpper t"
    by blast
  from all a have "translateRuToEnWithPunctuation (toUpperCase [0x436]) = asciiUpper [0x3B]"
    by blast
  moreover from all b have "translateRuToEnWithPunctuation (toUpperCase [0x43F]) = asciiUpper [0x67]"
    by blast
  then have "translateRuToEnWithPunctuation (toUpperCase [0x43F]) = ascii ''G''"
    by (simp add: asciiUpper_def asciiUpper_unit_def ascii_def)
  ultimately show ?thesis using a b by blast
qed

text \<open>
  C4. The translator is a total function from strings to strings (the model has no
  failure value, as the source has no throwing operation), and its result has as many
  characters (code points, as the string iterator counts them) as its argument.
\<close>

theorem translate_length:
  "length (Array_from (translateRuToEnWithPunctuation s)) = length (Array_from s)"
  by (simp add: Array_from_translate)

lemma map_of_bij_betw:
  assumes k: "distinct (map fst xs)" and v: "distinct (map snd xs)"
  shows "bij_betw (\<lambda>k. the (map_of xs k)) (fst ` set xs) (snd ` set xs)"
proof -
  have val: "the (map_of xs a) = b" if "(a, b) \<in> set xs" for a b
    using that k by simp
  from v have inj: "inj_on snd (set xs)" by (simp add: distinct_map)
  have "inj_on (\<lambda>k. the (map_of xs k)) (fst ` set xs)"
  proof (rule inj_onI)
    fix a a' assume "a \<in> fst ` set xs" "a' \<in> fst ` set xs"
      and eq: "the (map_of xs a) = the (map_of xs a')"
    then obtain b b' where m: "(a, b) \<in> set xs" "(a', b') \<in> set xs" by auto
    with eq val have "snd (a, b) = snd (a', b')" by simp
    then have "(a, b) = (a', b')" by (rule inj_onD [OF inj _ m])
    then show "a = a'" by simp
  qed
  moreover have "(\<lambda>k. the (map_of xs k)) ` fst ` set xs = snd ` set xs"
    using val by (force simp: image_iff)
  ultimately show ?thesis by (simp add: bij_betw_def)
qed

text \<open>
  C8. The letter map has exactly 33 entries, 33 keys and 33 values, and is a bijection
  from its keys onto its values; each key is a Cyrillic small letter and each value is an
  unshifted character of the US keyboard (a small Latin letter or one of
  \<^verbatim>\<open>` [ ] ; ' , .\<close>).
\<close>

theorem letterMap_bijective:
  "length letterMap = 33 \<and>
   card (dom (map_of letterMap)) = 33 \<and>
   card (ran (map_of letterMap)) = 33 \<and>
   bij_betw (\<lambda>k. the (map_of letterMap k)) (dom (map_of letterMap)) (ran (map_of letterMap)) \<and>
   list_all (\<lambda>(k, v).
       (\<exists>u. k = [u] \<and> (0x430 \<le> u \<and> u \<le> 0x44F \<or> u = 0x451)) \<and>
       (\<exists>a. v = [a] \<and>
          (0x61 \<le> a \<and> a \<le> 0x7A \<or> a \<in> set [0x60, 0x5B, 0x5D, 0x3B, 0x27, 0x2C, 0x2E])))
     letterMap"
proof -
  have len: "length letterMap = 33" by (simp add: letterMap_def)
  have k: "distinct (map fst letterMap)" by (simp add: letterMap_def)
  have v: "distinct (map snd letterMap)" by (simp add: letterMap_def)
  have d: "dom (map_of letterMap) = fst ` set letterMap"
    by (rule dom_map_of_conv_image_fst)
  have r: "ran (map_of letterMap) = snd ` set letterMap"
    using k by (rule ran_distinct)
  have "card (fst ` set letterMap) = length (map fst letterMap)"
    using distinct_card [OF k] by simp
  moreover have "card (snd ` set letterMap) = length (map snd letterMap)"
    using distinct_card [OF v] by simp
  moreover have "list_all (\<lambda>(k, v).
       (\<exists>u. k = [u] \<and> (0x430 \<le> u \<and> u \<le> 0x44F \<or> u = 0x451)) \<and>
       (\<exists>a. v = [a] \<and>
          (0x61 \<le> a \<and> a \<le> 0x7A \<or> a \<in> set [0x60, 0x5B, 0x5D, 0x3B, 0x27, 0x2C, 0x2E])))
     letterMap"
    by (simp add: letterMap_def)
  ultimately show ?thesis
    using len map_of_bij_betw [OF k v] by (simp add: d r)
qed

lemma io_in_letterMap: "truthy_prop letterMap (toLowerCase [0x401]) = Some [0x60]"
  by (simp add: truthy_prop_def letterMap_def toLowerCase_def lower_unit_def)

lemma translate_char_io: "translate_char [0x401] = [0x60]"
  by (simp add: translate_char_def truthy_prop_def letterMap_def toLowerCase_def
      toUpperCase_def lower_unit_def upper_unit_def)

text \<open>
  C10. The capital letter io (U+0401) translates to the grave accent, because its
  lowercase form is a key of the letter map: whenever the punctuation map is consulted the
  character is not capital io, and the output character at the place of a capital io is
  the grave accent, never the tilde. The seven keys of the letter map whose image is not
  a letter are io, ha, hard sign, zhe, e, be, yu; for each of them the capital and the small
  letter translate to the same string (capital and small zhe both to ";"), so the
  translator is not injective.
\<close>

theorem capital_io_and_lost_shift:
  "translateRuToEnWithPunctuation [0x401] = [0x60] \<and>
   (truthy_prop letterMap (toLowerCase ch) = None \<longrightarrow> ch \<noteq> [0x401]) \<and>
   (i < length (Array_from s) \<and> Array_from s ! i = [0x401] \<longrightarrow>
      Array_from (translateRuToEnWithPunctuation s) ! i = [0x60]) \<and>
   [k. (k, v) \<leftarrow> letterMap, asciiUpper v = v] =
     [[0x451], [0x445], [0x44A], [0x436], [0x44D], [0x431], [0x44E]] \<and>
   list_all (\<lambda>c. toUpperCase c \<noteq> c \<and>
                 translateRuToEnWithPunctuation (toUpperCase c) = translateRuToEnWithPunctuation c)
     [[0x451], [0x445], [0x44A], [0x436], [0x44D], [0x431], [0x44E]] \<and>
   translateRuToEnWithPunctuation [0x416] = ascii '';'' \<and>
   translateRuToEnWithPunctuation [0x436] = ascii '';'' \<and>
   \<not> inj translateRuToEnWithPunctuation"
proof (intro conjI impI)
  show "translateRuToEnWithPunctuation [0x401] = [0x60]"
    by (simp add: translateRuToEnWithPunctuation_def translate_char_io)
  show "ch \<noteq> [0x401]" if "truthy_prop letterMap (toLowerCase ch) = None"
    using that io_in_letterMap by auto
  show "Array_from (translateRuToEnWithPunctuation s) ! i = [0x60]"
    if "i < length (Array_from s) \<and> Array_from s ! i = [0x401]"
    using that by (simp add: Array_from_translate translate_char_io)
  show "[k. (k, v) \<leftarrow> letterMap, asciiUpper v = v] =
     [[0x451], [0x445], [0x44A], [0x436], [0x44D], [0x431], [0x44E]]"
    by (simp add: letterMap_def asciiUpper_def asciiUpper_unit_def)
  show "list_all (\<lambda>c. toUpperCase c \<noteq> c \<and>
                 translateRuToEnWithPunctuation (toUpperCase c) = translateRuToEnWithPunctuation c)
     [[0x451], [0x445], [0x44A], [0x436], [0x44D], [0x431], [0x44E]]"
    by (simp add: translate_eval)
  show a: "translateRuToEnWithPunctuation [0x416] = ascii '';''"
    by (simp add: translate_eval ascii_def)
  show b: "translateRuToEnWithPunctuation [0x436] = ascii '';''"
    by (simp add: translate_eval ascii_def)
  show "\<not> inj translateRuToEnWithPunctuation"
  proof
    assume "inj translateRuToEnWithPunctuation"
    from injD [OF this, of "[0x416]" "[0x436]"] a b
    have "[0x416] = ([0x436] :: js_string)" by simp
    then show False by simp
  qed
qed

theorem capital_io_and_lost_shift_witness:
  "truthy_prop letterMap (toLowerCase (ascii '','')) = None \<and>
   ascii '','' \<noteq> [0x401] \<and>
   (1 :: nat) < length (Array_from [0x415, 0x401, 0x7E]) \<and>
   Array_from [0x415, 0x401, 0x7E] ! 1 = [0x401] \<and>
   Array_from (translateRuToEnWithPunctuation [0x415, 0x401, 0x7E]) ! 1 = [0x60]"
  using capital_io_and_lost_shift [of "ascii '',''" 1 "[0x415, 0x401, 0x7E]"]
  by (simp add: ascii_def truthy_prop_def letterMap_def toLowerCase_def lower_unit_def
      isLeadSurrogate_def)

section \<open>Submission\<close>

text \<open>
  C5. When the promise of the paste operation is fulfilled with a response whose status
  code is 0, the dialog afterwards has empty input text, cleared validity status, cleared
  error message and a closed modal. When the status code is not 0, the error message is
  the message of the response, and the input text and the modal flag are as before.
\<close>

theorem settle_fulfilled:
  "(code rsp = 0 \<longrightarrow>
      inputValue (settle (Fulfilled rsp) st) = [] \<and>
      status (settle (Fulfilled rsp) st) = StatusNone \<and>
      errMsg (settle (Fulfilled rsp) st) = [] \<and>
      \<not> isModalOpen (settle (Fulfilled rsp) st)) \<and>
   (code rsp \<noteq> 0 \<longrightarrow>
      errMsg (settle (Fulfilled rsp) st) = msg rsp \<and>
      inputValue (settle (Fulfilled rsp) st) = inputValue st \<and>
      isModalOpen (settle (Fulfilled rsp) st) = isModalOpen st)"
  by (simp add: on_then_def on_finally_def)

theorem settle_fulfilled_witness:
  "code \<lparr>code = 0, msg = []\<rparr> = 0 \<and>
   inputValue (settle (Fulfilled \<lparr>code = 0, msg = []\<rparr>)
     (initial\<lparr>isModalOpen := True, inputValue := privet, isLoading := True\<rparr>)) = [] \<and>
   \<not> isModalOpen (settle (Fulfilled \<lparr>code = 0, msg = []\<rparr>)
     (initial\<lparr>isModalOpen := True, inputValue := privet, isLoading := True\<rparr>)) \<and>
   code \<lparr>code = - 1, msg = ascii ''busy''\<rparr> \<noteq> 0 \<and>
   errMsg (settle (Fulfilled \<lparr>code = - 1, msg = ascii ''busy''\<rparr>)
     (initial\<lparr>isModalOpen := True, inputValue := privet, isLoading := True\<rparr>)) = ascii ''busy'' \<and>
   inputValue (settle (Fulfilled \<lparr>code = - 1, msg = ascii ''busy''\<rparr>)
     (initial\<lparr>isModalOpen := True, inputValue := privet, isLoading := True\<rparr>)) = privet \<and>
   isModalOpen (settle (Fulfilled \<lparr>code = - 1, msg = ascii ''busy''\<rparr>)
     (initial\<lparr>isModalOpen := True, inputValue := privet, isLoading := True\<rparr>))"
  using
    settle_fulfilled [of "\<lparr>code = 0, msg = []\<rparr>"
      "initial\<lparr>isModalOpen := True, inputValue := privet, isLoading := True\<rparr>"]
    settle_fulfilled [of "\<lparr>code = - 1, msg = ascii ''busy''\<rparr>"
      "initial\<lparr>isModalOpen := True, inputValue := privet, isLoading := True\<rparr>"]
  by simp

text \<open>
  C6. A submit with non-empty text and no submission in flight calls the paste operation
  with the translation of the input text when the selected language is \<open>ru\<close>, and with
  the input text itself for any other selected language.
\<close>

theorem submit_textToSend:
  assumes "\<not> isLoading st" and "inputValue st \<noteq> []"
  shows "snd (submit st) =
           Some (if language st = lang_ru then translateRuToEnWithPunctuation (inputValue st)
                 else inputValue st)"
  using assms by (simp add: submit_def)

theorem submit_textToSend_witness:
  "snd (submit (initial\<lparr>inputValue := privet, language := lang_ru\<rparr>)) =
     Some (translateRuToEnWithPunctuation privet) \<and>
   snd (submit (initial\<lparr>inputValue := privet\<rparr>)) = Some privet"
  using
    submit_textToSend [of "initial\<lparr>inputValue := privet, language := lang_ru\<rparr>"]
    submit_textToSend [of "initial\<lparr>inputValue := privet\<rparr>"]
  by (simp add: initial_def privet_def lang_ru_def lang_en_def)

text \<open>
  C7. A submit while a submission is in flight, or while the input text is empty, makes no
  call to the paste operation and leaves the whole state of the dialog as it was.
\<close>

theorem submit_noop:
  assumes "isLoading st \<or> inputValue st = []"
  shows "submit st = (st, None)"
  using assms by (simp add: submit_def)

theorem submit_noop_witness:
  "submit (initial\<lparr>inputValue := privet, isLoading := True\<rparr>) =
     (initial\<lparr>inputValue := privet, isLoading := True\<rparr>, None) \<and>
   submit initial = (initial, None)"
  using
    submit_noop [of "initial\<lparr>inputValue := privet, isLoading := True\<rparr>"]
    submit_noop [of initial]
  by (simp add: initial_def)

text \<open>
  C9. Whatever the outcome of the promise of the paste operation, fulfilled with any
  response or rejected, the loading flag is false once the chain has run.
\<close>

theorem settle_clears_loading:
  "isLoading (settle outc st) = False"
  by (cases outc) (simp_all add: on_finally_def)

end
